theory Spec2Isabelle
  imports Complex_Main "HOL-Library.Word"
begin

unbundle bit_operations_syntax

section \<open>Data model of \<open>sim/gen.py\<close>\<close>

text \<open>
  The generator works on NumPy arrays.  A two-dimensional array is a list of rows, a
  three-dimensional one a list of such matrices.  The element types are the ones of the
  source: \<open>np.float64\<close> values are read as the real numbers they denote, \<open>np.int16\<close>,
  \<open>np.int32\<close> and \<open>np.int64\<close> are two's-complement words whose arithmetic wraps.
\<close>

type_synonym int16 = "16 word"
type_synonym int32 = "32 word"
type_synonym int64 = "64 word"

section \<open>The quantizer \<open>to_q15\<close>\<close>

text \<open>
  \<open>np.round\<close> on a float array is the C function \<open>rint\<close> in the default rounding mode:
  the nearest integral value, a tie going to the even neighbour.  \<open>rint\<close> gives that
  integer; the result of \<open>np.round\<close> is still a float.
\<close>

definition rint :: "real \<Rightarrow> int" where
  "rint x =
     (let f = \<lfloor>x\<rfloor>; d = x - of_int f
      in if d < 1 / 2 then f
         else if 1 / 2 < d then f + 1
         else if even f then f else f + 1)"

definition np_round :: "real \<Rightarrow> real" where
  "np_round x = of_int (rint x)"

text \<open>\<open>np.clip(a, lo, hi)\<close> is \<open>minimum(maximum(a, lo), hi)\<close>.\<close>

definition np_clip :: "real \<Rightarrow> real \<Rightarrow> real \<Rightarrow> real" where
  "np_clip a lo hi = min (max a lo) hi"

text \<open>
  \<open>.astype(np.int16)\<close> on a float truncates towards zero and keeps the low 16 bits.
\<close>

definition astype_int16 :: "real \<Rightarrow> int16" where
  "astype_int16 v = word_of_int (if 0 \<le> v then \<lfloor>v\<rfloor> else \<lceil>v\<rceil>)"

text \<open>
  The body of \<open>to_q15\<close> for one element.  The product \<open>x * 32768.0\<close> scales a double by
  a power of two, which is exact for every finite double whose product is finite; an
  infinite product is clipped to the same bound as the real product.
\<close>

definition to_q15_elem :: "real \<Rightarrow> int16" where
  "to_q15_elem x = astype_int16 (np_clip (np_round (x * 32768)) (- 32768) 32767)"

text \<open>NumPy applies the expression to every element of the array.\<close>

definition to_q15 :: "real list list \<Rightarrow> int16 list list" where
  "to_q15 x = map (map to_q15_elem) x"

section \<open>The golden multiply-accumulate model\<close>

text \<open>\<open>A_q.astype(np.int32)\<close>: sign extension of every element.\<close>

definition astype_int32 :: "int16 list list \<Rightarrow> int32 list list" where
  "astype_int32 m = map (map scast) m"

text \<open>
  \<open>A[..., None] * B[None, ...]\<close>: the operands have shapes \<open>(N,4,1)\<close> and \<open>(1,4,N)\<close>, so
  broadcasting gives the array of shape \<open>(N,4,N)\<close> with
  \<open>prod[i][k][j] = A[i][k] * B[k][j]\<close>, multiplied in \<open>int32\<close>.
\<close>

definition np_mul_bcast :: "int32 list list \<Rightarrow> int32 list list \<Rightarrow> int32 list list list" where
  "np_mul_bcast A B =
     map (\<lambda>a_row. map (\<lambda>(a, b_row). map (\<lambda>b. a * b) b_row) (zip a_row B)) A"

text \<open>
  \<open>prod.sum(axis=1)\<close>: \<open>out[i][j]\<close> is the sum over \<open>k\<close> of \<open>prod[i][k][j]\<close>.  For an \<open>int32\<close>
  array NumPy accumulates in the default integer type, which is \<open>int64\<close> here; each
  element is sign-extended before it is added.
\<close>

definition np_sum_axis1 :: "int32 list list list \<Rightarrow> int64 list list" where
  "np_sum_axis1 p = map (\<lambda>plane. map (\<lambda>col. sum_list (map scast col)) (transpose plane)) p"

text \<open>\<open>.astype(np.int64)\<close> on the \<open>int64\<close> sums.\<close>

definition astype_int64 :: "int64 list list \<Rightarrow> int64 list list" where
  "astype_int64 m = map (map scast) m"

text \<open>\<open>np.right_shift\<close> on a signed array is the arithmetic shift.\<close>

definition np_right_shift :: "int64 \<Rightarrow> nat \<Rightarrow> int64" where
  "np_right_shift v n = signed_drop_bit n v"

text \<open>\<open>np.clip\<close> on \<open>int64\<close> compares as signed numbers.\<close>

definition np_clip_i64 :: "int64 \<Rightarrow> int64 \<Rightarrow> int64 \<Rightarrow> int64" where
  "np_clip_i64 a lo hi =
     (let m = (if a <s lo then lo else a) in if hi <s m then hi else m)"

text \<open>Lines 24 to 27 of \<open>main\<close>.\<close>

definition golden :: "int16 list list \<Rightarrow> int16 list list \<Rightarrow> int16 list list" where
  "golden A_q B_q =
     (let prod = np_mul_bcast (astype_int32 A_q) (astype_int32 B_q);
          sum40 = astype_int64 (np_sum_axis1 prod);
          y = map (map (\<lambda>s. np_right_shift (s + push_bit 14 1) 15)) sum40
      in map (map (\<lambda>v. scast (np_clip_i64 v (- 32768) 32767))) y)"

text \<open>
  The shape of a two-dimensional array: \<open>r\<close> rows of \<open>c\<close> elements each.
\<close>

definition has_shape :: "'a list list \<Rightarrow> nat \<Rightarrow> nat \<Rightarrow> bool" where
  "has_shape m r c = (length m = r \<and> list_all (\<lambda>row. length row = c) m)"

section \<open>The command-line program \<open>main\<close>\<close>

text \<open>
  The parsed command line.  \<open>type=int\<close> makes \<open>N\<close> and \<open>seed\<close> integers; the text of
  the arguments is not modelled.
\<close>

record args =
  N :: int
  seed :: int
  dump_hex :: bool
  outdir :: string

text \<open>
  The random source is NumPy's and is a parameter of the model: \<open>default_rng\<close> makes a
  generator state from the seed, and \<open>uniform g lo hi\<close> draws one sample from \<open>[lo, hi)\<close>
  and returns the advanced state.  With \<open>size=(r, c)\<close> the generator fills an array of
  that shape row by row, one draw per element.
\<close>

fun draw_row :: "('g \<Rightarrow> real \<Rightarrow> real \<Rightarrow> real \<times> 'g) \<Rightarrow> 'g \<Rightarrow> real \<Rightarrow> real \<Rightarrow> nat
    \<Rightarrow> real list \<times> 'g" where
  "draw_row uniform g lo hi 0 = ([], g)"
| "draw_row uniform g lo hi (Suc c) =
     (let (u, g1) = uniform g lo hi;
          (us, g2) = draw_row uniform g1 lo hi c
      in (u # us, g2))"

fun uniform_size :: "('g \<Rightarrow> real \<Rightarrow> real \<Rightarrow> real \<times> 'g) \<Rightarrow> 'g \<Rightarrow> real \<Rightarrow> real \<Rightarrow> nat \<Rightarrow> nat
    \<Rightarrow> real list list \<times> 'g" where
  "uniform_size uniform g lo hi 0 c = ([], g)"
| "uniform_size uniform g lo hi (Suc r) c =
     (let (row, g1) = draw_row uniform g lo hi c;
          (rows, g2) = uniform_size uniform g1 lo hi r c
      in (row # rows, g2))"

text \<open>
  What a run leaves behind: the lines printed, the message of a rejected command line,
  the directories made and the files written.  A file is named by its directory and by
  which of \<open>A_N.hex\<close>, \<open>B_N.hex\<close> and \<open>C_N_gold.hex\<close> it is; its content is the list of
  its lines.
\<close>

datatype artifact = A_hex int | B_hex int | C_gold_hex int

datatype line = Summary int "nat \<times> nat" "nat \<times> nat" "nat \<times> nat"

datatype error = InvalidChoice int

record world =
  stdout :: "line list"
  stderr :: "error list"
  dirs :: "string set"
  files :: "string \<times> artifact \<rightharpoonup> string list"

text \<open>\<open>.shape\<close> of a two-dimensional array.\<close>

definition shape :: "'a list list \<Rightarrow> nat \<times> nat" where
  "shape m = (length m, case m of [] \<Rightarrow> 0 | row # _ \<Rightarrow> length row)"

text \<open>
  \<open>f"{(v & 0xFFFF):04x}"\<close>: the 16 bits of the element read as an unsigned number, in
  four lowercase hexadecimal digits.
\<close>

definition hex_digit :: "nat \<Rightarrow> char" where
  "hex_digit d = ''0123456789abcdef'' ! (d mod 16)"

definition hex04 :: "int16 \<Rightarrow> string" where
  "hex04 v =
     (let u = unat v
      in [hex_digit (u div 4096), hex_digit (u div 256), hex_digit (u div 16), hex_digit u])"

text \<open>
  The three loops of the \<open>dump_hex\<close> branch: the elements \<open>m[i, j]\<close> for \<open>i\<close> in
  \<open>range(r)\<close> and \<open>j\<close> in \<open>range(c)\<close>, one line each.
\<close>

definition hex_lines :: "int16 list list \<Rightarrow> nat \<Rightarrow> nat \<Rightarrow> string list" where
  "hex_lines m r c = concat (map (\<lambda>i. map (\<lambda>j. hex04 (m ! i ! j)) [0..<c]) [0..<r])"

definition write_hex ::
  "args \<Rightarrow> int16 list list \<Rightarrow> int16 list list \<Rightarrow> int16 list list \<Rightarrow> world \<Rightarrow> world" where
  "write_hex a A_q B_q C_q w =
     (let n = nat (N a); d = outdir a
      in w\<lparr>dirs := insert d (dirs w),
           files := (files w)
             ((d, A_hex (N a)) \<mapsto> hex_lines A_q n 4,
              (d, B_hex (N a)) \<mapsto> hex_lines B_q 4 n,
              (d, C_gold_hex (N a)) \<mapsto> hex_lines C_q n n)\<rparr>)"

text \<open>
  \<open>main\<close>.  \<open>parse_args\<close> rejects an \<open>N\<close> that is not among \<open>choices=[4,8,16]\<close>: it
  writes its message to the standard error stream and exits, which is the \<open>Inl\<close>
  result.  Otherwise the run draws \<open>A\<close> and then \<open>B\<close> from the one generator, quantizes
  both, computes the golden result, prints the summary line and, with \<open>--dump_hex\<close>,
  writes the three files.  The Python function returns nothing; the model returns the
  three fixed-point matrices of the run, so that they can be talked about.
\<close>

definition main ::
  "(int \<Rightarrow> 'g) \<Rightarrow> ('g \<Rightarrow> real \<Rightarrow> real \<Rightarrow> real \<times> 'g) \<Rightarrow> args \<Rightarrow> world
     \<Rightarrow> (error + int16 list list \<times> int16 list list \<times> int16 list list) \<times> world" where
  "main default_rng uniform a w =
     (if N a \<noteq> 4 \<and> N a \<noteq> 8 \<and> N a \<noteq> 16
      then (Inl (InvalidChoice (N a)), w\<lparr>stderr := stderr w @ [InvalidChoice (N a)]\<rparr>)
      else
        let rng = default_rng (seed a);
            (A, rng1) = uniform_size uniform rng (- 1) 1 (nat (N a)) 4;
            (B, rng2) = uniform_size uniform rng1 (- 1) 1 4 (nat (N a));
            A_q = to_q15 A;
            B_q = to_q15 B;
            C_q = golden A_q B_q;
            w1 = w\<lparr>stdout := stdout w @ [Summary (N a) (shape A_q) (shape B_q) (shape C_q)]\<rparr>;
            w2 = (if dump_hex a then write_hex a A_q B_q C_q w1 else w1)
        in (Inr (A_q, B_q, C_q), w2))"

section \<open>Properties of the golden model\<close>

subsection \<open>Shapes and word arithmetic\<close>

lemma has_shape_row: "has_shape m r c \<Longrightarrow> i < r \<Longrightarrow> length (m ! i) = c"
  by (auto simp: has_shape_def list_all_length)

lemma has_shape_length: "has_shape m r c \<Longrightarrow> length m = r"
  by (simp add: has_shape_def)

lemma sint_q15_range: "- 32768 \<le> sint (a :: int16) \<and> sint a \<le> 32767"
  using sint_range_size [of a] by (simp add: word_size)

lemma q15_prod_bounds:
  fixes a b :: int16
  shows "- 1073741824 \<le> sint a * sint b" "sint a * sint b \<le> 1073741824"
proof -
  have "\<bar>sint a\<bar> \<le> 32768" "\<bar>sint b\<bar> \<le> 32768"
    using sint_q15_range [of a] sint_q15_range [of b] by auto
  then have "\<bar>sint a\<bar> * \<bar>sint b\<bar> \<le> 32768 * 32768"
    by (intro mult_mono) auto
  then have "\<bar>sint a * sint b\<bar> \<le> 1073741824"
    by (simp add: abs_mult)
  then show "- 1073741824 \<le> sint a * sint b" "sint a * sint b \<le> 1073741824"
    by auto
qed

lemma sint_mul32:
  fixes a b :: int16
  shows "sint ((scast a :: int32) * scast b) = sint a * sint b"
proof -
  have "sint ((scast a :: int32) * scast b) = signed_take_bit 31 (sint a * sint b)"
    by (simp add: sint_word_ariths sint_up_scast is_up)
  also have "\<dots> = sint a * sint b"
    using q15_prod_bounds [of a b] by (simp add: signed_take_bit_int_eq_self)
  finally show ?thesis .
qed


lemma sint_word_of_int64: "sint (word_of_int k :: int64) = signed_take_bit 63 k"
  by (simp add: sint_sbintrunc')

lemma scast_32_64: "(scast (p :: int32) :: int64) = word_of_int (sint p)"
  by (rule scast_eq)

lemma sint_sum64:
  fixes p0 p1 p2 p3 :: int32
  assumes "\<bar>sint p0\<bar> \<le> 1073741824" "\<bar>sint p1\<bar> \<le> 1073741824"
    "\<bar>sint p2\<bar> \<le> 1073741824" "\<bar>sint p3\<bar> \<le> 1073741824"
  shows "sint (sum_list (map scast [p0, p1, p2, p3]) :: int64) = sint p0 + sint p1 + sint p2 + sint p3"
proof -
  have "(sum_list (map scast [p0, p1, p2, p3]) :: int64)
        = word_of_int (sint p0 + sint p1 + sint p2 + sint p3)"
    unfolding list.map sum_list.Cons sum_list.Nil scast_32_64
    by (simp only: of_int_add add_0_right add.assoc)
  then have "sint (sum_list (map scast [p0, p1, p2, p3]) :: int64)
      = signed_take_bit 63 (sint p0 + sint p1 + sint p2 + sint p3)"
    by (simp only: sint_word_of_int64)
  also have "\<dots> = sint p0 + sint p1 + sint p2 + sint p3"
    using assms by (intro signed_take_bit_int_eq_self) simp_all
  finally show ?thesis .
qed

lemma sint_add_bias:
  fixes s :: int64
  assumes "\<bar>sint s\<bar> \<le> 4294967296"
  shows "sint (s + push_bit 14 1) = sint s + 16384"
proof -
  have "s + push_bit 14 1 = word_of_int (sint s + 16384)"
    by simp
  then have "sint (s + push_bit 14 1) = signed_take_bit 63 (sint s + 16384)"
    by (simp only: sint_word_of_int64)
  also have "\<dots> = sint s + 16384"
    using assms by (intro signed_take_bit_int_eq_self) simp_all
  finally show ?thesis .
qed

lemma sint_right_shift: "sint (np_right_shift v 15) = sint v div 32768"
  by (simp add: np_right_shift_def sint_signed_drop_bit_eq drop_bit_eq_div)

lemma sint_clip_i64:
  "sint (np_clip_i64 v (- 32768) 32767) = max (- 32768) (min 32767 (sint v))"
  by (simp add: np_clip_i64_def word_sless_alt Let_def)

lemma sint_scast_64_16:
  fixes v :: int64
  assumes "- 32768 \<le> sint v" "sint v \<le> 32767"
  shows "sint (scast v :: int16) = sint v"
proof -
  have "sint (scast v :: int16) = signed_take_bit 15 (sint v)"
    by (simp add: scast_eq sint_sbintrunc' del: of_int_sint)
  also have "\<dots> = sint v"
    using assms by (intro signed_take_bit_int_eq_self) simp_all
  finally show ?thesis .
qed


lemma np_mul_bcast_nth:
  assumes "has_shape A n 4" "has_shape B 4 m" "i < n" "k < 4" "j < m"
  shows "np_mul_bcast (astype_int32 A) (astype_int32 B) ! i ! k ! j
         = scast (A ! i ! k) * scast (B ! k ! j)"
  using assms has_shape_row [OF assms(1) assms(3)] has_shape_row [OF assms(2) assms(4)]
  by (simp add: np_mul_bcast_def astype_int32_def has_shape_def)

lemma np_mul_bcast_plane:
  assumes "has_shape A n 4" "has_shape B 4 m" "i < n"
  shows "has_shape (np_mul_bcast (astype_int32 A) (astype_int32 B) ! i) 4 m"
  using assms has_shape_row [OF assms(1) assms(3)]
  by (auto simp: np_mul_bcast_def astype_int32_def has_shape_def list_all_length)

lemma np_mul_bcast_length:
  "length (np_mul_bcast (astype_int32 A) (astype_int32 B)) = length A"
  by (simp add: np_mul_bcast_def astype_int32_def)

lemma transpose_plane:
  assumes "has_shape p 4 m" "j < m"
  shows "transpose p ! j = [p ! 0 ! j, p ! 1 ! j, p ! 2 ! j, p ! 3 ! j]"
    and "length (transpose p) = m"
proof -
  have len: "length p = 4" using assms by (simp add: has_shape_def)
  have rows: "\<And>i. i < length p \<Longrightarrow> length (p ! i) = m"
    using assms by (simp add: has_shape_def list_all_length)
  have ne: "p = [] \<Longrightarrow> m = 0" using len by auto
  have t: "transpose p = map (\<lambda>i. map (\<lambda>j. p ! j ! i) [0..<length p]) [0..<m]"
    by (rule transpose_rectangle [OF ne rows])
  have up: "[0..<4] = [0, 1, 2, Suc 2]"
    by (simp add: upt_rec)
  show "transpose p ! j = [p ! 0 ! j, p ! 1 ! j, p ! 2 ! j, p ! 3 ! j]"
    using assms(2) by (simp add: t len up eval_nat_numeral)
  show "length (transpose p) = m" by (simp add: t)
qed

lemma np_sum_axis1_nth:
  assumes "has_shape A n 4" "has_shape B 4 m" "i < n" "j < m"
  shows "np_sum_axis1 (np_mul_bcast (astype_int32 A) (astype_int32 B)) ! i ! j
         = sum_list (map scast
             [scast (A ! i ! 0) * scast (B ! 0 ! j) :: int32,
              scast (A ! i ! 1) * scast (B ! 1 ! j),
              scast (A ! i ! 2) * scast (B ! 2 ! j),
              scast (A ! i ! 3) * scast (B ! 3 ! j)])"
proof -
  let ?P = "np_mul_bcast (astype_int32 A) (astype_int32 B)"
  have li: "i < length ?P"
    using assms by (simp add: np_mul_bcast_length has_shape_def)
  have pl: "has_shape (?P ! i) 4 m"
    by (rule np_mul_bcast_plane [OF assms(1,2,3)])
  have "np_sum_axis1 ?P ! i ! j = sum_list (map scast (transpose (?P ! i) ! j))"
    using li transpose_plane(2) [OF pl assms(4)] assms(4)
    by (simp add: np_sum_axis1_def)
  also have "transpose (?P ! i) ! j = [?P ! i ! 0 ! j, ?P ! i ! 1 ! j, ?P ! i ! 2 ! j, ?P ! i ! 3 ! j]"
    by (rule transpose_plane(1) [OF pl assms(4)])
  finally show ?thesis
    using assms by (simp only: np_mul_bcast_nth [OF assms(1,2,3) _ assms(4)])
qed

subsection \<open>One output element\<close>

lemma np_sum_axis1_shape:
  assumes "has_shape A n 4" "has_shape B 4 m" "i < n" "0 < m"
  shows "length (np_sum_axis1 (np_mul_bcast (astype_int32 A) (astype_int32 B))) = n"
    and "length (np_sum_axis1 (np_mul_bcast (astype_int32 A) (astype_int32 B)) ! i) = m"
proof -
  let ?P = "np_mul_bcast (astype_int32 A) (astype_int32 B)"
  have ln: "length ?P = n"
    using assms(1) by (simp add: np_mul_bcast_length has_shape_def)
  show "length (np_sum_axis1 ?P) = n"
    by (simp add: np_sum_axis1_def ln)
  have pl: "has_shape (?P ! i) 4 m"
    by (rule np_mul_bcast_plane [OF assms(1,2,3)])
  show "length (np_sum_axis1 ?P ! i) = m"
    using ln assms(3) transpose_plane(2) [OF pl assms(4)]
    by (simp add: np_sum_axis1_def)
qed

lemma golden_nth:
  assumes "has_shape A n 4" "has_shape B 4 m" "i < n" "j < m"
  shows "golden A B ! i ! j =
     scast (np_clip_i64
       (np_right_shift
          (np_sum_axis1 (np_mul_bcast (astype_int32 A) (astype_int32 B)) ! i ! j + push_bit 14 1) 15)
       (- 32768) 32767)"
proof -
  have m: "0 < m" using assms(4) by simp
  note sh = np_sum_axis1_shape [OF assms(1,2,3) m]
  show ?thesis
    using sh assms(3,4) by (simp add: golden_def astype_int64_def Let_def)
qed

lemma acc_bounds:
  fixes a0 a1 a2 a3 b0 b1 b2 b3 :: int16
  shows "\<bar>sint a0 * sint b0 + sint a1 * sint b1 + sint a2 * sint b2 + sint a3 * sint b3\<bar>
         \<le> 4294967296"
  using q15_prod_bounds [of a0 b0] q15_prod_bounds [of a1 b1]
    q15_prod_bounds [of a2 b2] q15_prod_bounds [of a3 b3]
  by linarith

lemma sum4: "(\<Sum>k<(4::nat). f k) = f 0 + f 1 + f 2 + (f 3 :: int)"
  by (simp add: eval_nat_numeral lessThan_Suc)

lemma sint_sum40:
  assumes "has_shape A n 4" "has_shape B 4 m" "i < n" "j < m"
  shows "sint (np_sum_axis1 (np_mul_bcast (astype_int32 A) (astype_int32 B)) ! i ! j)
         = (\<Sum>k<4. sint (A ! i ! k) * sint (B ! k ! j))"
proof -
  have b: "\<bar>sint ((scast a :: int32) * scast b)\<bar> \<le> 1073741824" for a b :: int16
    unfolding sint_mul32 using q15_prod_bounds [of a b] by linarith
  show ?thesis
    unfolding np_sum_axis1_nth [OF assms] sum4
    by (simp only: sint_sum64 [OF b b b b] sint_mul32)
qed

lemma golden_sint:
  assumes "has_shape A n 4" "has_shape B 4 m" "i < n" "j < m"
  shows "sint (golden A B ! i ! j) =
     max (- 32768) (min 32767 (((\<Sum>k<4. sint (A ! i ! k) * sint (B ! k ! j)) + 16384) div 32768))"
proof -
  let ?s = "np_sum_axis1 (np_mul_bcast (astype_int32 A) (astype_int32 B)) ! i ! j"
  let ?acc = "\<Sum>k<4. sint (A ! i ! k) * sint (B ! k ! j)"
  have s: "sint ?s = ?acc" by (rule sint_sum40 [OF assms])
  have bnd: "\<bar>sint ?s\<bar> \<le> 4294967296"
    unfolding s sum4 by (rule acc_bounds)
  have y: "sint (np_right_shift (?s + push_bit 14 1) 15) = (?acc + 16384) div 32768"
    by (simp only: sint_right_shift sint_add_bias [OF bnd] s)
  let ?c = "np_clip_i64 (np_right_shift (?s + push_bit 14 1) 15) (- 32768) 32767"
  have c: "sint ?c = max (- 32768) (min 32767 ((?acc + 16384) div 32768))"
    by (simp only: sint_clip_i64 y)
  have "sint (scast ?c :: int16) = sint ?c"
  proof (rule sint_scast_64_16)
    show "- 32768 \<le> sint ?c" unfolding c by simp
    show "sint ?c \<le> 32767" unfolding c by simp
  qed
  then show ?thesis
    by (simp only: golden_nth [OF assms] c)
qed


subsection \<open>Claims about the golden model\<close>

lemma all_less4: "(\<forall>k<(4::nat). P k) = (P 0 \<and> P 1 \<and> P 2 \<and> P 3)"
  by (auto simp: eval_nat_numeral less_Suc_eq)

text \<open>
  Claim C1.  For operands \<open>A\<close> of shape \<open>(n, 4)\<close> and \<open>B\<close> of shape \<open>(4, m)\<close> over \<open>int16\<close>,
  whose elements therefore all lie in \<open>[-32768, 32767]\<close>, no intermediate value wraps:
  every \<open>int32\<close> product reads as the integer product, the \<open>int64\<close> sum as the integer sum
  of the four products, and the biased sum as that sum plus \<open>2^14\<close>.  The output element
  is this biased sum shifted right arithmetically by 15 bits (\<open>drop_bit\<close> on the integers)
  and saturated to \<open>[-32768, 32767]\<close>.
\<close>

theorem golden_exact_no_wrap:
  assumes "has_shape A n 4" "has_shape B 4 m" "i < n" "j < m"
  shows "(\<forall>k<4. sint (np_mul_bcast (astype_int32 A) (astype_int32 B) ! i ! k ! j)
                  = sint (A ! i ! k) * sint (B ! k ! j))
       \<and> sint (np_sum_axis1 (np_mul_bcast (astype_int32 A) (astype_int32 B)) ! i ! j)
           = (\<Sum>k<4. sint (A ! i ! k) * sint (B ! k ! j))
       \<and> sint (np_sum_axis1 (np_mul_bcast (astype_int32 A) (astype_int32 B)) ! i ! j
                + push_bit 14 1)
           = (\<Sum>k<4. sint (A ! i ! k) * sint (B ! k ! j)) + 2 ^ 14
       \<and> sint (golden A B ! i ! j)
           = max (- 32768) (min 32767
               (drop_bit 15 ((\<Sum>k<4. sint (A ! i ! k) * sint (B ! k ! j)) + 2 ^ 14)))"
proof (intro conjI allI impI)
  fix k :: nat assume "k < 4"
  then show "sint (np_mul_bcast (astype_int32 A) (astype_int32 B) ! i ! k ! j)
             = sint (A ! i ! k) * sint (B ! k ! j)"
    using assms by (simp only: np_mul_bcast_nth sint_mul32)
next
  show s: "sint (np_sum_axis1 (np_mul_bcast (astype_int32 A) (astype_int32 B)) ! i ! j)
           = (\<Sum>k<4. sint (A ! i ! k) * sint (B ! k ! j))"
    by (rule sint_sum40 [OF assms])
  have "\<bar>sint (np_sum_axis1 (np_mul_bcast (astype_int32 A) (astype_int32 B)) ! i ! j)\<bar>
        \<le> 4294967296"
    unfolding s sum4 by (rule acc_bounds)
  then show "sint (np_sum_axis1 (np_mul_bcast (astype_int32 A) (astype_int32 B)) ! i ! j
                + push_bit 14 1)
           = (\<Sum>k<4. sint (A ! i ! k) * sint (B ! k ! j)) + 2 ^ 14"
    by (simp only: sint_add_bias s) simp
next
  show "sint (golden A B ! i ! j)
           = max (- 32768) (min 32767
               (drop_bit 15 ((\<Sum>k<4. sint (A ! i ! k) * sint (B ! k ! j)) + 2 ^ 14)))"
    by (simp only: golden_sint [OF assms] drop_bit_eq_div) simp
qed

theorem golden_exact_no_wrap_witness:
  "has_shape [[32767, - 32768, 1, 2 :: int16]] 1 4
   \<and> has_shape [[3], [4], [5], [6 :: int16]] 4 1
   \<and> sint (golden [[32767, - 32768, 1, 2]] [[3], [4], [5], [6]] ! 0 ! 0) = - 1"
  using golden_exact_no_wrap [of "[[32767, - 32768, 1, 2]]" 1 "[[3], [4], [5], [6]]" 1 0 0]
  by (simp add: has_shape_def sum4)

text \<open>
  Claim C2.  Whenever the biased and shifted sum of the four products of an output
  element exceeds 32767, as it does for products near \<open>32767 * 32767\<close>, the golden model
  stores exactly 32767 there.
\<close>

theorem golden_saturates_high:
  assumes "has_shape A n 4" "has_shape B 4 m" "i < n" "j < m"
    and "32767 < drop_bit 15 ((\<Sum>k<4. sint (A ! i ! k) * sint (B ! k ! j)) + 2 ^ 14)"
  shows "sint (golden A B ! i ! j) = 32767"
  using assms(5) by (simp only: golden_sint [OF assms(1-4)] drop_bit_eq_div) simp

theorem golden_saturates_high_witness:
  "has_shape [[32767, 32767, 32767, 32767 :: int16]] 1 4
   \<and> has_shape [[32767], [32767], [32767], [32767 :: int16]] 4 1
   \<and> (32767 :: int) < drop_bit 15
        ((\<Sum>k<4. sint ([[32767, 32767, 32767, 32767 :: int16]] ! 0 ! k)
                 * sint ([[32767], [32767], [32767], [32767 :: int16]] ! k ! 0)) + 2 ^ 14)
   \<and> sint (golden [[32767, 32767, 32767, 32767]] [[32767], [32767], [32767], [32767]] ! 0 ! 0)
       = 32767"
  using golden_saturates_high [of "[[32767, 32767, 32767, 32767]]" 1
      "[[32767], [32767], [32767], [32767]]" 1 0 0]
  by (simp add: has_shape_def sum4 drop_bit_eq_div)

text \<open>
  Claim C5.  For \<open>A = [[32767, 0, 0, 0]]\<close> and \<open>B = [[16384], [0], [0], [0]]\<close> the claim gives
  the result \<open>[[16368]]\<close>.  The golden model does not produce that matrix.
\<close>

theorem golden_concrete_not_16368:
  "golden [[32767, 0, 0, 0]] [[16384], [0], [0], [0]] \<noteq> [[16368]]"
  by (simp add: golden_def np_mul_bcast_def astype_int32_def np_sum_axis1_def astype_int64_def
      np_right_shift_def np_clip_i64_def word_sless_alt)

text \<open>
  Claim C5, amended.  The single nonzero product is \<open>32767 * 16384 = 536854528\<close>; with the
  bias \<open>16384\<close> the sum is \<open>2^29\<close>, and the shift by 15 gives \<open>16384\<close>, which is in
  range: the golden model produces \<open>[[16384]]\<close>, without saturation.
\<close>

theorem golden_concrete_16384:
  "golden [[32767, 0, 0, 0]] [[16384], [0], [0], [0]] = [[16384]]
   \<and> sint (32767 :: int16) * sint (16384 :: int16) = 536854528
   \<and> drop_bit 15 (536854528 + 2 ^ 14 :: int) = 16384"
  by (simp add: golden_def np_mul_bcast_def astype_int32_def np_sum_axis1_def astype_int64_def
      np_right_shift_def np_clip_i64_def word_sless_alt drop_bit_eq_div)

text \<open>
  Claim C10.  The output element \<open>C[i][j]\<close> is determined by row \<open>i\<close> of \<open>A\<close> and column \<open>j\<close> of
  \<open>B\<close>: two operand pairs of valid shapes that agree there give the same element,
  whatever their other rows and columns (and whatever their sizes) are.
\<close>

theorem golden_elem_depends_on_row_col:
  assumes "has_shape A n 4" "has_shape B 4 m" "has_shape A' n' 4" "has_shape B' 4 m'"
    and "i < n" "i < n'" "j < m" "j < m'"
    and "A ! i = A' ! i" and "\<forall>k<4. B ! k ! j = B' ! k ! j"
  shows "golden A B ! i ! j = golden A' B' ! i ! j"
proof -
  have "np_sum_axis1 (np_mul_bcast (astype_int32 A) (astype_int32 B)) ! i ! j
      = np_sum_axis1 (np_mul_bcast (astype_int32 A') (astype_int32 B')) ! i ! j"
    unfolding np_sum_axis1_nth [OF assms(1,2,5,7)] np_sum_axis1_nth [OF assms(3,4,6,8)]
    using assms(9,10) by simp
  then show ?thesis
    by (simp only: golden_nth [OF assms(1,2,5,7)] golden_nth [OF assms(3,4,6,8)])
qed

theorem golden_elem_depends_on_row_col_witness:
  "has_shape [[1, 2, 3, 4], [5, 6, 7, 8 :: int16]] 2 4
   \<and> has_shape [[1, 2], [3, 4], [5, 6], [7, 8 :: int16]] 4 2
   \<and> has_shape [[9, 9, 9, 9], [5, 6, 7, 8 :: int16]] 2 4
   \<and> has_shape [[1, 0], [3, 0], [5, 0], [7, 0 :: int16]] 4 2
   \<and> golden [[1, 2, 3, 4], [5, 6, 7, 8]] [[1, 2], [3, 4], [5, 6], [7, 8]] ! 1 ! 0
     = golden [[9, 9, 9, 9], [5, 6, 7, 8]] [[1, 0], [3, 0], [5, 0], [7, 0]] ! 1 ! 0"
  using golden_elem_depends_on_row_col [of "[[1, 2, 3, 4], [5, 6, 7, 8]]" 2
      "[[1, 2], [3, 4], [5, 6], [7, 8]]" 2 "[[9, 9, 9, 9], [5, 6, 7, 8]]" 2
      "[[1, 0], [3, 0], [5, 0], [7, 0]]" 2 1 0]
  by (simp add: has_shape_def all_less4)

end
